theory Spec2Isabelle
  imports Main "HOL-Library.Word"
begin

unbundle bit_operations_syntax

section \<open>The runs-of-slots allocator: size brackets and free page runs\<close>

text \<open>
  A shallow embedding of the inline functions of
  \<^verbatim>\<open>runtime/gc/allocator/rosalloc.h\<close>: the size-bracket classifiers of
  \<^verbatim>\<open>RosAlloc\<close> and the methods of \<^verbatim>\<open>RosAlloc::FreePageRun\<close>.
\<close>

subsection \<open>Machine types, build parameters and failure\<close>

text \<open>
  \<^verbatim>\<open>size_t\<close> and pointers are 32-bit words (the snapshot targets 32-bit
  platforms); \<open>+\<close>, \<open>-\<close> and \<open>*\<close> wrap around and comparisons are unsigned.
\<close>

type_synonym size_t = "32 word"
type_synonym addr = "32 word"
type_synonym byte = "8 word"

text \<open>
  \<^verbatim>\<open>globals.h\<close> is not among the sources. Its two constants that the header uses,
  \<^verbatim>\<open>kIsDebugBuild\<close> and \<^verbatim>\<open>kPageSize\<close>, are parameters of the model. Division by
  zero is total in HOL and is not in C++, so a theorem that divides by the page size
  assumes that it is not zero.
\<close>

record globals =
  kIsDebugBuild :: bool
  kPageSize :: size_t

text \<open>
  A function of the header stops in two ways: a \<^verbatim>\<open>DCHECK\<close> that fails aborts the
  process, and an index outside a vector or array is undefined behaviour. Both are
  results of the model.
\<close>

datatype error = CheckFailed | OutOfBounds

text \<open>
  Modelled from the spec: \<^verbatim>\<open>base/logging.h\<close>, which defines \<^verbatim>\<open>DCHECK\<close>, is
  missing. The spec calls an invariant violation "debug only", one that "terminates the
  process": in a debug build a false condition stops with \<open>CheckFailed\<close>, in a
  release build the condition is not looked at.
\<close>

definition DCHECK :: "globals \<Rightarrow> bool \<Rightarrow> (error + 'a) \<Rightarrow> error + 'a" where
  "DCHECK g cond k = (if kIsDebugBuild g \<and> \<not> cond then Inl CheckFailed else k)"

text \<open>
  \<^verbatim>\<open>DCHECK_EQ(x, f(...))\<close> where the right-hand side is itself a call that can stop:
  the call is made in debug builds only.
\<close>

definition DCHECK_EQ :: "globals \<Rightarrow> 'b \<Rightarrow> (error + 'b) \<Rightarrow> (error + 'a) \<Rightarrow> error + 'a" where
  "DCHECK_EQ g x y k =
     (if kIsDebugBuild g
      then (case y of Inl e \<Rightarrow> Inl e | Inr v \<Rightarrow> if x = v then k else Inl CheckFailed)
      else k)"

text \<open>
  Modelled from the spec: \<^verbatim>\<open>utils.h\<close>, which defines \<^verbatim>\<open>RoundUp\<close>, is missing.
  The spec gives \<^verbatim>\<open>RoundUp(x, n)\<close> as \<^verbatim>\<open>ceil(x/n) * n\<close>; on \<^verbatim>\<open>size_t\<close> the
  ceiling is the quotient of \<open>x + n - 1\<close>, and every operation wraps. The header rounds
  to 16 and to the page size; for a power of two this is the mask
  \<^verbatim>\<open>(x + n - 1) & -n\<close> (lemma \<open>RoundUp_power_of_two\<close> below).
\<close>

definition RoundUp :: "size_t \<Rightarrow> size_t \<Rightarrow> size_t" where
  "RoundUp x n = ((x + n - 1) div n) * n"

text \<open>Modelled from the spec: \<^verbatim>\<open>KB\<close> of \<^verbatim>\<open>globals.h\<close>; the brackets of
  \<^verbatim>\<open>1 * KB\<close> and \<^verbatim>\<open>2 * KB\<close> are those of 1024 and 2048 bytes.\<close>

definition KB :: size_t where
  "KB = 1024"

subsection \<open>Size brackets\<close>

definition kMagicNum :: byte where
  "kMagicNum = 42"

definition kMagicNumFree :: byte where
  "kMagicNumFree = 43"

definition kNumOfSizeBrackets :: size_t where
  "kNumOfSizeBrackets = 34"

definition kNumOfQuantumSizeBrackets :: size_t where
  "kNumOfQuantumSizeBrackets = 32"

definition kLargeSizeThreshold :: size_t where
  "kLargeSizeThreshold = 2048"

text \<open>
  Modelled from the spec: the table \<^verbatim>\<open>bracketSizes\<close> is filled by
  \<^verbatim>\<open>RosAlloc::Initialize\<close> in \<^verbatim>\<open>rosalloc.cc\<close>, which is missing. The spec:
  "Brackets 0..31 are 16, 32, ..., 512 bytes (16-byte quantum). Brackets 32, 33 are
  1024, 2048 bytes."
\<close>

definition bracketSizes :: "size_t list" where
  "bracketSizes = map (\<lambda>i. 16 * (of_nat i + 1)) [0 ..< 32] @ [1024, 2048]"

definition IndexToBracketSize :: "globals \<Rightarrow> size_t \<Rightarrow> error + size_t" where
  "IndexToBracketSize g idx =
     DCHECK g (idx < kNumOfSizeBrackets)
      (if unat idx < length bracketSizes then Inr (bracketSizes ! unat idx)
       else Inl OutOfBounds)"

definition RoundToBracketSize :: "globals \<Rightarrow> size_t \<Rightarrow> error + size_t" where
  "RoundToBracketSize g sz =
     DCHECK g (sz \<le> kLargeSizeThreshold)
      (if sz \<le> 512 then Inr (RoundUp sz 16)
       else if 512 < sz \<and> sz \<le> 1 * KB then Inr (1 * KB)
       else DCHECK g (1 * KB < sz \<and> sz \<le> 2 * KB) (Inr (2 * KB)))"

definition SizeToIndex :: "globals \<Rightarrow> size_t \<Rightarrow> error + size_t" where
  "SizeToIndex g sz =
     DCHECK g (sz \<le> kLargeSizeThreshold)
      (if sz \<le> 512 then Inr (RoundUp sz 16 div 16 - 1)
       else if 512 < sz \<and> sz \<le> 1 * KB then Inr (kNumOfSizeBrackets - 2)
       else DCHECK g (1 * KB < sz \<and> sz \<le> 2 * KB) (Inr (kNumOfSizeBrackets - 1)))"

text \<open>The result is the pair of the returned index and the value stored through
  \<^verbatim>\<open>bracket_size_out\<close>.\<close>

definition SizeToIndexAndBracketSize :: "globals \<Rightarrow> size_t \<Rightarrow> error + (size_t \<times> size_t)" where
  "SizeToIndexAndBracketSize g sz =
     DCHECK g (sz \<le> kLargeSizeThreshold)
      (if sz \<le> 512 then
         (let bracket_size = RoundUp sz 16;
              idx = bracket_size div 16 - 1
          in DCHECK_EQ g bracket_size (IndexToBracketSize g idx) (Inr (idx, bracket_size)))
       else if 512 < sz \<and> sz \<le> 1 * KB then
         (let bracket_size = 1024;
              idx = kNumOfSizeBrackets - 2
          in DCHECK_EQ g bracket_size (IndexToBracketSize g idx) (Inr (idx, bracket_size)))
       else
         DCHECK g (1 * KB < sz \<and> sz \<le> 2 * KB)
          (let bracket_size = 2048;
               idx = kNumOfSizeBrackets - 1
           in DCHECK_EQ g bracket_size (IndexToBracketSize g idx) (Inr (idx, bracket_size))))"

definition UsableSize :: "globals \<Rightarrow> size_t \<Rightarrow> error + size_t" where
  "UsableSize g bytes =
     (if bytes > kLargeSizeThreshold then Inr (RoundUp bytes (kPageSize g))
      else RoundToBracketSize g bytes)"

subsection \<open>The allocator's state\<close>

datatype PageReleaseMode =
    kPageReleaseModeNone
  | kPageReleaseModeEnd
  | kPageReleaseModeSize
  | kPageReleaseModeSizeAndEnd
  | kPageReleaseModeAll

text \<open>The fields of \<^verbatim>\<open>RosAlloc\<close> that the page-run methods read or write. A name
  cannot end in an underscore here, so \<^verbatim>\<open>base_\<close> is \<open>base\<close>, and so on.\<close>

record RosAlloc =
  base :: addr
  footprint :: size_t
  capacity :: size_t
  page_map :: "byte list"
  free_page_run_size_map :: "size_t list"
  page_release_mode :: PageReleaseMode
  page_release_size_threshold :: size_t

text \<open>
  The allocator object together with the memory it manages. A \<^verbatim>\<open>FreePageRun*\<close>
  is the address of the run's first byte; its only field, \<^verbatim>\<open>magic_num_\<close>, is the
  byte of \<open>memory\<close> at that address.
\<close>

record state =
  rosalloc :: RosAlloc
  memory :: "addr \<Rightarrow> byte"

definition IsFree :: "globals \<Rightarrow> state \<Rightarrow> addr \<Rightarrow> bool" where
  "IsFree g s this = (if kIsDebugBuild g then memory s this = kMagicNumFree else True)"

definition ToPageMapIndex :: "globals \<Rightarrow> state \<Rightarrow> addr \<Rightarrow> error + size_t" where
  "ToPageMapIndex g s a =
     DCHECK g (base (rosalloc s) \<le> a \<and> a < base (rosalloc s) + capacity (rosalloc s))
      (let byte_offset = a - base (rosalloc s)
       in DCHECK g (byte_offset mod kPageSize g = 0)
           (Inr (byte_offset div kPageSize g)))"

definition ByteSize :: "globals \<Rightarrow> state \<Rightarrow> addr \<Rightarrow> error + size_t" where
  "ByteSize g s this =
     (let fpr_base = this in
      case ToPageMapIndex g s fpr_base of
        Inl e \<Rightarrow> Inl e
      | Inr pm_idx \<Rightarrow>
          if unat pm_idx < length (free_page_run_size_map (rosalloc s)) then
            (let byte_size = free_page_run_size_map (rosalloc s) ! unat pm_idx
             in DCHECK g (byte_size \<ge> 0)
                 (DCHECK g (byte_size mod kPageSize g = 0)
                   (Inr byte_size)))
          else Inl OutOfBounds)"

definition SetByteSize :: "globals \<Rightarrow> state \<Rightarrow> addr \<Rightarrow> size_t \<Rightarrow> error + state" where
  "SetByteSize g s this byte_size =
     DCHECK g (byte_size mod kPageSize g = 0)
      (let fpr_base = this in
       case ToPageMapIndex g s fpr_base of
         Inl e \<Rightarrow> Inl e
       | Inr pm_idx \<Rightarrow>
           if unat pm_idx < length (free_page_run_size_map (rosalloc s)) then
             Inr (s\<lparr>rosalloc := (rosalloc s)
                    \<lparr>free_page_run_size_map :=
                       (free_page_run_size_map (rosalloc s))[unat pm_idx := byte_size]\<rparr>\<rparr>)
           else Inl OutOfBounds)"

definition IsLargerThanPageReleaseThreshold :: "globals \<Rightarrow> state \<Rightarrow> addr \<Rightarrow> error + bool" where
  "IsLargerThanPageReleaseThreshold g s this =
     (case ByteSize g s this of
        Inl e \<Rightarrow> Inl e
      | Inr byte_size \<Rightarrow> Inr (byte_size \<ge> page_release_size_threshold (rosalloc s)))"

definition IsAtEndOfSpace :: "globals \<Rightarrow> state \<Rightarrow> addr \<Rightarrow> error + bool" where
  "IsAtEndOfSpace g s this =
     (case ByteSize g s this of
        Inl e \<Rightarrow> Inl e
      | Inr byte_size \<Rightarrow>
          Inr (this + byte_size = base (rosalloc s) + footprint (rosalloc s)))"

text \<open>\<^verbatim>\<open>&&\<close> evaluates its right operand only when the left one is true.\<close>

definition ShouldReleasePages :: "globals \<Rightarrow> state \<Rightarrow> addr \<Rightarrow> error + bool" where
  "ShouldReleasePages g s this =
     (case page_release_mode (rosalloc s) of
        kPageReleaseModeNone \<Rightarrow> Inr False
      | kPageReleaseModeEnd \<Rightarrow> IsAtEndOfSpace g s this
      | kPageReleaseModeSize \<Rightarrow> IsLargerThanPageReleaseThreshold g s this
      | kPageReleaseModeSizeAndEnd \<Rightarrow>
          (case IsLargerThanPageReleaseThreshold g s this of
             Inl e \<Rightarrow> Inl e
           | Inr larger \<Rightarrow> if larger then IsAtEndOfSpace g s this else Inr False)
      | kPageReleaseModeAll \<Rightarrow> Inr True)"

text \<open>
  \<^verbatim>\<open>madvise\<close> is a system call: \<open>ReleasePages\<close> returns the calls it makes, in
  order, each with its start address, its length and its advice.
\<close>

datatype advice = MADV_DONTNEED

type_synonym madvise_call = "addr \<times> size_t \<times> advice"

definition ReleasePages :: "globals \<Rightarrow> state \<Rightarrow> addr \<Rightarrow> error + madvise_call list" where
  "ReleasePages g s this =
     (let start = this in
      case ByteSize g s this of
        Inl e \<Rightarrow> Inl e
      | Inr byte_size \<Rightarrow>
          DCHECK g (byte_size mod kPageSize g = 0)
           (case ShouldReleasePages g s this of
              Inl e \<Rightarrow> Inl e
            | Inr release_pages \<Rightarrow>
                if kIsDebugBuild g then
                  DCHECK g (byte_size \<ge> kPageSize g)
                   (let start = start + kPageSize g;
                        byte_size = byte_size - kPageSize g
                    in if byte_size > 0
                       then (if release_pages then Inr [(start, byte_size, MADV_DONTNEED)]
                             else Inr [])
                       else Inr [])
                else
                  (if release_pages then Inr [(start, byte_size, MADV_DONTNEED)]
                   else Inr [])))"

text \<open>The addresses that a \<^verbatim>\<open>madvise\<close> call covers: \<open>len\<close> bytes from \<open>start\<close>.\<close>

definition advised :: "madvise_call \<Rightarrow> addr \<Rightarrow> bool" where
  "advised c a = (case c of (start, len, _) \<Rightarrow> unat start \<le> unat a \<and> unat a < unat start + unat len)"

text \<open>The addresses of the first page of the run at \<open>this\<close>.\<close>

definition in_first_page :: "globals \<Rightarrow> addr \<Rightarrow> addr \<Rightarrow> bool" where
  "in_first_page g this a = (unat this \<le> unat a \<and> unat a < unat this + unat (kPageSize g))"

section \<open>Rounding and the bracket table\<close>

text \<open>\<open>RoundUp\<close> read as a natural number, when \<open>x + n - 1\<close> does not wrap.\<close>

lemma RoundUp_unat:
  assumes "n \<noteq> 0" "unat x + unat n - 1 < 2 ^ 32"
  shows "unat (RoundUp x n) = ((unat x + unat n - 1) div unat n) * unat n"
proof -
  have n0: "0 < unat n" using assms(1) by (simp add: unat_gt_0)
  have a: "unat (x + n - 1) = unat x + unat n - 1"
  proof -
    have m: "unat (n - 1) = unat n - 1"
      using assms(1) by (simp add: unat_minus_one)
    have "unat (x + (n - 1)) = unat x + unat (n - 1)"
      using assms(2) n0 m by (simp add: unat_add_lem [THEN iffD1])
    then have "unat (x + (n - 1)) = unat x + unat n - 1"
      using n0 m by simp
    then show ?thesis by (simp only: add_diff_eq)
  qed
  have b: "unat ((x + n - 1) div n) = (unat x + unat n - 1) div unat n"
    by (simp add: unat_div a)
  have c: "((unat x + unat n - 1) div unat n) * unat n \<le> unat x + unat n - 1"
    by simp
  have "unat ((x + n - 1) div n) * unat n < 2 ^ LENGTH(32)"
    using le_less_trans [OF c assms(2)] by (simp add: b)
  then have "unat (((x + n - 1) div n) * n) = unat ((x + n - 1) div n) * unat n"
    by (rule unat_mult_lem [THEN iffD1])
  then show ?thesis by (simp add: RoundUp_def b)
qed

text \<open>
  For a power of two \<open>n\<close> the quotient and the product are a mask: \<open>RoundUp x n\<close> is
  \<^verbatim>\<open>(x + n - 1) & -n\<close>, also where the sum wraps.
\<close>

lemma RoundUp_power_of_two:
  "RoundUp x (2 ^ k) = (x + 2 ^ k - 1) AND - (2 ^ k)"
proof -
  have "a div 2 ^ k * 2 ^ k = a AND NOT (mask k)" for a :: size_t
  proof -
    have "a div 2 ^ k * 2 ^ k = push_bit k (drop_bit k a)"
      by (simp add: push_bit_eq_mult drop_bit_eq_div)
    also have "\<dots> = a AND NOT (mask k)"
      by (rule bit_eqI) (auto simp: bit_simps)
    finally show ?thesis .
  qed
  then show ?thesis by (simp add: RoundUp_def minus_exp_eq_not_mask)
qed

lemma ceil_mult_bounds:
  fixes x p :: nat
  assumes "0 < p"
  shows "p dvd ((x + p - 1) div p) * p"
    and "x \<le> ((x + p - 1) div p) * p"
    and "((x + p - 1) div p) * p < x + p"
proof -
  let ?y = "x + p - 1"
  show "p dvd (?y div p) * p" by simp
  have e: "(?y div p) * p = ?y - ?y mod p"
    by (simp add: minus_mod_eq_div_mult)
  have m: "?y mod p \<le> p - 1"
    using assms by (simp add: less_Suc_eq_le [symmetric])
  show "x \<le> (?y div p) * p" using e m assms by arith
  show "(?y div p) * p < x + p" using e assms by arith
qed

lemma quantum_index:
  fixes n :: nat
  assumes "1 \<le> n"
  shows "(n + 15) div 16 = (n - 1) div 16 + 1"
proof -
  have "n + 15 = (n - 1) + 16" using assms by simp
  then show ?thesis by (simp only: div_add_self2)
qed

lemma RoundUp_16_unat:
  assumes "sz \<le> 512"
  shows "unat (RoundUp sz 16) = ((unat sz + 15) div 16) * 16"
proof -
  have "unat sz \<le> 512" using assms by (simp add: word_le_nat_alt)
  then have "unat sz + unat (16 :: size_t) - 1 < 2 ^ 32" by simp
  then have "unat (RoundUp sz 16) = ((unat sz + unat (16 :: size_t) - 1) div unat (16 :: size_t)) * unat (16 :: size_t)"
    by (intro RoundUp_unat) simp_all
  then show ?thesis by simp
qed

lemma bracketSizes_quantum:
  assumes "k < 32"
  shows "bracketSizes ! k = of_nat (16 * (k + 1))"
  using assms by (simp add: bracketSizes_def nth_append)

lemma bracketSizes_length: "length bracketSizes = 34"
  by (simp add: bracketSizes_def)

lemma bracketSizes_medium: "bracketSizes ! 32 = 1024" "bracketSizes ! 33 = 2048"
  by (simp_all add: bracketSizes_def nth_append)

text \<open>The small branch: the rounded size, its index and the entry of the table.\<close>

lemma quantum_branch:
  assumes "1 \<le> sz" "sz \<le> 512"
  defines "k \<equiv> (unat sz - 1) div 16"
  shows "k < 32"
    and "unat (RoundUp sz 16) = 16 * (k + 1)"
    and "RoundUp sz 16 = bracketSizes ! k"
    and "unat (RoundUp sz 16 div 16 - 1) = k"
proof -
  have n1: "1 \<le> unat sz" using assms(1) by (simp add: word_le_nat_alt)
  have n2: "unat sz \<le> 512" using assms(2) by (simp add: word_le_nat_alt)
  show k: "k < 32" using n2 n1 unfolding k_def by arith
  show u: "unat (RoundUp sz 16) = 16 * (k + 1)"
    using RoundUp_16_unat [OF assms(2)] quantum_index [OF n1] by (simp add: k_def)
  have "RoundUp sz 16 = of_nat (unat (RoundUp sz 16))" by simp
  then show "RoundUp sz 16 = bracketSizes ! k"
    by (simp only: u bracketSizes_quantum [OF k])
  have d: "unat (RoundUp sz 16 div 16) = k + 1"
    by (simp add: unat_div u)
  then have "RoundUp sz 16 div 16 \<noteq> 0" by (metis Suc_eq_plus1 nat.distinct(1) unat_0)
  then have "unat (RoundUp sz 16 div 16 - 1) = unat (RoundUp sz 16 div 16) - 1"
    by (simp add: unat_minus_one)
  then show "unat (RoundUp sz 16 div 16 - 1) = k" using d by simp
qed

section \<open>Checks that pass\<close>

lemma DCHECK_True: "cond \<Longrightarrow> DCHECK g cond k = k"
  by (simp add: DCHECK_def)

lemma DCHECK_EQ_same: "DCHECK_EQ g x (Inr x) k = k"
  by (simp add: DCHECK_EQ_def)

lemma IndexToBracketSize_ok:
  assumes "unat idx < 34"
  shows "IndexToBracketSize g idx = Inr (bracketSizes ! unat idx)"
proof -
  have "idx < kNumOfSizeBrackets"
    using assms by (simp add: kNumOfSizeBrackets_def word_less_nat_alt)
  then show ?thesis
    using assms by (simp add: IndexToBracketSize_def DCHECK_True bracketSizes_length)
qed

section \<open>The size-bracket classifiers\<close>

text \<open>
  C3. \<open>RoundToBracketSize\<close> follows the bracket geometry. For a size from 1 to 512 it
  returns the size rounded up to the next multiple of 16: a multiple of 16 that is at
  least the size and less than the size plus 16, which is the entry of one of the 32
  quantum brackets of the table. For a size above 512 and up to 1024 it returns 1024, the
  entry of bracket 32; for a size above 1024 and up to 2048 it returns 2048, the entry of
  bracket 33. No check fails on the way, in a debug build or a release build.
\<close>

theorem RoundToBracketSize_geometry:
  "(1 \<le> sz \<and> sz \<le> 512 \<longrightarrow>
      (\<exists>r. RoundToBracketSize g sz = Inr r
         \<and> 16 dvd unat r \<and> unat sz \<le> unat r \<and> unat r < unat sz + 16
         \<and> r = bracketSizes ! ((unat sz - 1) div 16) \<and> (unat sz - 1) div 16 < 32))
   \<and> (512 < sz \<and> sz \<le> 1024 \<longrightarrow>
        RoundToBracketSize g sz = Inr 1024 \<and> bracketSizes ! 32 = 1024)
   \<and> (1024 < sz \<and> sz \<le> 2048 \<longrightarrow>
        RoundToBracketSize g sz = Inr 2048 \<and> bracketSizes ! 33 = 2048)"
proof (intro conjI impI)
  assume a: "1 \<le> sz \<and> sz \<le> 512"
  then have le: "sz \<le> 512" and ge: "1 \<le> sz" by simp_all
  have "sz \<le> kLargeSizeThreshold"
    using le by (simp add: kLargeSizeThreshold_def word_le_nat_alt)
  then have r: "RoundToBracketSize g sz = Inr (RoundUp sz 16)"
    using le by (simp add: RoundToBracketSize_def DCHECK_True)
  have u: "unat (RoundUp sz 16) = ((unat sz + 15) div 16) * 16"
    by (rule RoundUp_16_unat [OF le])
  have "16 dvd unat (RoundUp sz 16)" by (simp add: u)
  moreover have "unat sz \<le> unat (RoundUp sz 16)"
    using ceil_mult_bounds(2) [of 16 "unat sz"] by (simp add: u)
  moreover have "unat (RoundUp sz 16) < unat sz + 16"
    using ceil_mult_bounds(3) [of 16 "unat sz"] by (simp add: u)
  ultimately show "\<exists>r. RoundToBracketSize g sz = Inr r
         \<and> 16 dvd unat r \<and> unat sz \<le> unat r \<and> unat r < unat sz + 16
         \<and> r = bracketSizes ! ((unat sz - 1) div 16) \<and> (unat sz - 1) div 16 < 32"
    using r quantum_branch(1,3) [OF ge le] by simp
next
  assume a: "512 < sz \<and> sz \<le> 1024"
  then have "sz \<le> kLargeSizeThreshold"
    by (simp add: kLargeSizeThreshold_def word_le_nat_alt)
  then show "RoundToBracketSize g sz = Inr 1024"
    using a by (simp add: RoundToBracketSize_def DCHECK_True KB_def word_le_nat_alt word_less_nat_alt)
next
  assume a: "1024 < sz \<and> sz \<le> 2048"
  then have "sz \<le> kLargeSizeThreshold"
    by (simp add: kLargeSizeThreshold_def)
  then show "RoundToBracketSize g sz = Inr 2048"
    using a by (simp add: RoundToBracketSize_def DCHECK_True KB_def word_le_nat_alt word_less_nat_alt)
qed (simp_all add: bracketSizes_medium)

theorem RoundToBracketSize_geometry_witness:
  "RoundToBracketSize \<lparr>kIsDebugBuild = True, kPageSize = 4096\<rparr> 24 = Inr 32
   \<and> RoundToBracketSize \<lparr>kIsDebugBuild = True, kPageSize = 4096\<rparr> 600 = Inr 1024
   \<and> RoundToBracketSize \<lparr>kIsDebugBuild = True, kPageSize = 4096\<rparr> 2000 = Inr 2048"
  using RoundToBracketSize_geometry [of 24 "\<lparr>kIsDebugBuild = True, kPageSize = 4096\<rparr>"]
    RoundToBracketSize_geometry [of 600 "\<lparr>kIsDebugBuild = True, kPageSize = 4096\<rparr>"]
    RoundToBracketSize_geometry [of 2000 "\<lparr>kIsDebugBuild = True, kPageSize = 4096\<rparr>"]
  by (simp add: bracketSizes_def nth_append)

text \<open>The three branches of the classifiers, with every check passing.\<close>

lemma large_threshold_unat: "(sz \<le> kLargeSizeThreshold) = (unat sz \<le> 2048)"
  by (simp add: kLargeSizeThreshold_def word_le_nat_alt)

lemma SizeToIndex_quantum:
  assumes "sz \<le> 512"
  shows "SizeToIndex g sz = Inr (RoundUp sz 16 div 16 - 1)"
proof -
  have "sz \<le> kLargeSizeThreshold"
    using assms by (simp add: kLargeSizeThreshold_def word_le_nat_alt word_less_nat_alt)
  then show ?thesis using assms by (simp add: SizeToIndex_def DCHECK_True)
qed

lemma SizeToIndex_1K:
  assumes "512 < sz" "sz \<le> 1024"
  shows "SizeToIndex g sz = Inr 32"
proof -
  have "sz \<le> kLargeSizeThreshold"
    using assms by (simp add: kLargeSizeThreshold_def word_le_nat_alt word_less_nat_alt)
  then show ?thesis
    using assms
    by (simp add: SizeToIndex_def DCHECK_True KB_def kNumOfSizeBrackets_def
        word_le_nat_alt word_less_nat_alt)
qed

lemma SizeToIndex_2K:
  assumes "1024 < sz" "sz \<le> 2048"
  shows "SizeToIndex g sz = Inr 33"
proof -
  have "sz \<le> kLargeSizeThreshold"
    using assms by (simp add: kLargeSizeThreshold_def word_le_nat_alt word_less_nat_alt)
  then show ?thesis
    using assms
    by (simp add: SizeToIndex_def DCHECK_True KB_def kNumOfSizeBrackets_def
        word_le_nat_alt word_less_nat_alt)
qed

lemma fused_quantum:
  assumes "1 \<le> sz" "sz \<le> 512"
  shows "SizeToIndexAndBracketSize g sz = Inr (RoundUp sz 16 div 16 - 1, RoundUp sz 16)"
proof -
  have t: "sz \<le> kLargeSizeThreshold"
    using assms by (simp add: kLargeSizeThreshold_def word_le_nat_alt word_less_nat_alt)
  let ?idx = "RoundUp sz 16 div 16 - 1"
  have i: "unat ?idx = (unat sz - 1) div 16" by (rule quantum_branch(4) [OF assms])
  then have "unat ?idx < 34" using quantum_branch(1) [OF assms] by simp
  then have "IndexToBracketSize g ?idx = Inr (bracketSizes ! unat ?idx)"
    by (rule IndexToBracketSize_ok)
  also have "bracketSizes ! unat ?idx = bracketSizes ! ((unat sz - 1) div 16)"
    by (simp only: i)
  also have "\<dots> = RoundUp sz 16"
    by (rule quantum_branch(3) [OF assms, symmetric])
  finally have "IndexToBracketSize g ?idx = Inr (RoundUp sz 16)" .
  then show ?thesis
    using t assms(2) by (simp add: SizeToIndexAndBracketSize_def DCHECK_True DCHECK_EQ_same Let_def)
qed

lemma fused_1K:
  assumes "512 < sz" "sz \<le> 1024"
  shows "SizeToIndexAndBracketSize g sz = Inr (32, 1024)"
proof -
  have t: "sz \<le> kLargeSizeThreshold"
    using assms by (simp add: kLargeSizeThreshold_def word_le_nat_alt word_less_nat_alt)
  have "IndexToBracketSize g 32 = Inr 1024"
    using IndexToBracketSize_ok [of 32 g] by (simp add: bracketSizes_medium)
  then show ?thesis
    using t assms
    by (simp add: SizeToIndexAndBracketSize_def DCHECK_True DCHECK_EQ_same Let_def KB_def
        kNumOfSizeBrackets_def word_le_nat_alt word_less_nat_alt)
qed

lemma fused_2K:
  assumes "1024 < sz" "sz \<le> 2048"
  shows "SizeToIndexAndBracketSize g sz = Inr (33, 2048)"
proof -
  have t: "sz \<le> kLargeSizeThreshold"
    using assms by (simp add: kLargeSizeThreshold_def word_le_nat_alt word_less_nat_alt)
  have "IndexToBracketSize g 33 = Inr 2048"
    using IndexToBracketSize_ok [of 33 g] by (simp add: bracketSizes_medium)
  then show ?thesis
    using t assms
    by (simp add: SizeToIndexAndBracketSize_def DCHECK_True DCHECK_EQ_same Let_def KB_def
        kNumOfSizeBrackets_def word_le_nat_alt word_less_nat_alt)
qed

lemma RoundToBracketSize_total:
  assumes "sz \<le> kLargeSizeThreshold"
  shows "RoundToBracketSize g sz =
           Inr (if sz \<le> 512 then RoundUp sz 16 else if sz \<le> 1024 then 1024 else 2048)"
  using assms
  by (simp add: RoundToBracketSize_def DCHECK_True KB_def kLargeSizeThreshold_def
      word_le_nat_alt word_less_nat_alt)

text \<open>
  C7. A request of 24 bytes is classified into bracket 1, whose slots are of 32 bytes:
  \<open>SizeToIndexAndBracketSize\<close> at 24 returns the index 1 and stores the bracket size 32,
  in a debug build and in a release build.
\<close>

theorem SizeToIndexAndBracketSize_24: "SizeToIndexAndBracketSize g 24 = Inr (1, 32)"
proof -
  have "RoundUp 24 16 = 32" by (simp add: RoundUp_def)
  then show ?thesis using fused_quantum [of 24 g] by simp
qed

theorem SizeToIndexAndBracketSize_24_witness:
  "SizeToIndexAndBracketSize \<lparr>kIsDebugBuild = True, kPageSize = 4096\<rparr> 24 = Inr (1, 32)
   \<and> SizeToIndexAndBracketSize \<lparr>kIsDebugBuild = False, kPageSize = 4096\<rparr> 24 = Inr (1, 32)"
  using SizeToIndexAndBracketSize_24 [of "\<lparr>kIsDebugBuild = True, kPageSize = 4096\<rparr>"]
    SizeToIndexAndBracketSize_24 [of "\<lparr>kIsDebugBuild = False, kPageSize = 4096\<rparr>"]
  by simp

text \<open>
  C8. The fused classifier agrees with its two components. For every size from 1 to 2048,
  \<open>SizeToIndexAndBracketSize\<close> returns an index and a bracket size, \<open>SizeToIndex\<close>
  returns that index and \<open>RoundToBracketSize\<close> returns that bracket size.
\<close>

theorem SizeToIndexAndBracketSize_agrees:
  assumes "1 \<le> sz" and "sz \<le> 2048"
  shows "\<exists>idx bs. SizeToIndexAndBracketSize g sz = Inr (idx, bs)
           \<and> SizeToIndex g sz = Inr idx
           \<and> RoundToBracketSize g sz = Inr bs"
proof -
  have t: "sz \<le> kLargeSizeThreshold" using assms(2) by (simp add: kLargeSizeThreshold_def)
  consider "sz \<le> 512" | "512 < sz" "sz \<le> 1024" | "1024 < sz"
    by (meson not_le)
  then show ?thesis
  proof cases
    case 1
    then show ?thesis
      using fused_quantum [OF assms(1) 1] SizeToIndex_quantum [OF 1] RoundToBracketSize_total [OF t]
      by simp
  next
    case 2
    then show ?thesis
      using fused_1K [OF 2] SizeToIndex_1K [OF 2] RoundToBracketSize_total [OF t]
      by (simp add: word_le_nat_alt word_less_nat_alt)
  next
    case 3
    then show ?thesis
      using fused_2K [OF 3 assms(2)] SizeToIndex_2K [OF 3 assms(2)] RoundToBracketSize_total [OF t]
      by (simp add: word_le_nat_alt word_less_nat_alt)
  qed
qed

theorem SizeToIndexAndBracketSize_agrees_witness:
  "(1::size_t) \<le> 700 \<and> (700::size_t) \<le> 2048
   \<and> (\<exists>idx bs. SizeToIndexAndBracketSize \<lparr>kIsDebugBuild = True, kPageSize = 4096\<rparr> 700 = Inr (idx, bs)
           \<and> SizeToIndex \<lparr>kIsDebugBuild = True, kPageSize = 4096\<rparr> 700 = Inr idx
           \<and> RoundToBracketSize \<lparr>kIsDebugBuild = True, kPageSize = 4096\<rparr> 700 = Inr bs)"
proof -
  have h1: "(1::size_t) \<le> 700" and h2: "(700::size_t) \<le> 2048" by simp_all
  show ?thesis
    using h1 h2 SizeToIndexAndBracketSize_agrees [OF h1 h2, of "\<lparr>kIsDebugBuild = True, kPageSize = 4096\<rparr>"]
    by simp
qed

text \<open>
  C10. \<open>SizeToIndex\<close> needs a size of at least 1. For every size from 1 to 2048 it returns
  an index below \<open>kNumOfSizeBrackets\<close>, which is 34. At size 0 it returns
  \<open>RoundUp 0 16 div 16 - 1\<close>, which wraps around to the largest \<^verbatim>\<open>size_t\<close>: not below
  \<open>kNumOfSizeBrackets\<close> and outside the bracket table. So among the sizes up to 2048
  the index is in range exactly when the size is at least 1.
\<close>

theorem SizeToIndex_in_range:
  "(1 \<le> sz \<and> sz \<le> 2048 \<longrightarrow>
      (\<exists>idx. SizeToIndex g sz = Inr idx \<and> idx < kNumOfSizeBrackets
          \<and> unat idx < length bracketSizes))
   \<and> kNumOfSizeBrackets = 34
   \<and> SizeToIndex g 0 = Inr (RoundUp 0 16 div 16 - 1)
   \<and> RoundUp 0 16 div 16 - 1 = (4294967295 :: size_t)
   \<and> \<not> (4294967295 :: size_t) < kNumOfSizeBrackets
   \<and> \<not> unat (4294967295 :: size_t) < length bracketSizes
   \<and> (sz \<le> 2048 \<longrightarrow>
        ((\<exists>idx. SizeToIndex g sz = Inr idx \<and> idx < kNumOfSizeBrackets) \<longleftrightarrow> 1 \<le> sz))"
proof -
  have pos: "\<exists>idx. SizeToIndex g sz = Inr idx \<and> idx < kNumOfSizeBrackets
          \<and> unat idx < length bracketSizes" if a: "1 \<le> sz" and b: "sz \<le> 2048"
  proof -
    consider "sz \<le> 512" | "512 < sz" "sz \<le> 1024" | "1024 < sz"
      by (meson not_le)
    then show ?thesis
    proof cases
      case 1
      have "unat (RoundUp sz 16 div 16 - 1) < 32"
        using quantum_branch(1,4) [OF a 1] by simp
      then show ?thesis
        using SizeToIndex_quantum [OF 1, of g]
        by (simp add: kNumOfSizeBrackets_def word_less_nat_alt bracketSizes_length)
    next
      case 2
      then show ?thesis
        using SizeToIndex_1K [OF 2, of g] by (simp add: kNumOfSizeBrackets_def bracketSizes_length)
    next
      case 3
      then show ?thesis
        using SizeToIndex_2K [OF 3 b, of g] by (simp add: kNumOfSizeBrackets_def bracketSizes_length)
    qed
  qed
  have z: "SizeToIndex g 0 = Inr (RoundUp 0 16 div 16 - 1)"
    using SizeToIndex_quantum [of 0 g] by simp
  have v: "RoundUp 0 16 div 16 - 1 = (4294967295 :: size_t)"
    by (simp add: RoundUp_def)
  have n: "\<not> (4294967295 :: size_t) < kNumOfSizeBrackets"
    by (simp add: kNumOfSizeBrackets_def)
  have iff: "(\<exists>idx. SizeToIndex g sz = Inr idx \<and> idx < kNumOfSizeBrackets) \<longleftrightarrow> 1 \<le> sz"
    if b: "sz \<le> 2048"
  proof (cases "sz = 0")
    case True
    then show ?thesis using z v n by simp
  next
    case False
    then have "1 \<le> sz" by (simp add: word_le_nat_alt unat_gt_0 Suc_le_eq)
    then show ?thesis using pos [OF _ b] by blast
  qed
  show ?thesis
    using pos z v n iff by (simp add: kNumOfSizeBrackets_def bracketSizes_length)
qed

theorem SizeToIndex_in_range_witness:
  "(\<exists>idx. SizeToIndex \<lparr>kIsDebugBuild = True, kPageSize = 4096\<rparr> 2048 = Inr idx
       \<and> idx < kNumOfSizeBrackets)
   \<and> \<not> (\<exists>idx. SizeToIndex \<lparr>kIsDebugBuild = True, kPageSize = 4096\<rparr> 0 = Inr idx
       \<and> idx < kNumOfSizeBrackets)"
  using SizeToIndex_in_range [of 2048 "\<lparr>kIsDebugBuild = True, kPageSize = 4096\<rparr>"]
    SizeToIndex_in_range [of 0 "\<lparr>kIsDebugBuild = True, kPageSize = 4096\<rparr>"]
  by simp

section \<open>Usable sizes\<close>

text \<open>
  C2. \<open>UsableSize\<close> of a size above 2048, the value of \<open>kLargeSizeThreshold\<close>, is the size
  rounded up to the page size; of any other size it is \<open>RoundToBracketSize\<close> of the size,
  which returns. In particular \<open>UsableSize\<close> of 10000 is 10000 rounded up to the page
  size: with a page size that is not zero and small enough for the sum not to wrap, the
  multiple of the page size that is at least 10000 and less than 10000 plus a page.
\<close>

theorem UsableSize_cases:
  "(2048 < sz \<longrightarrow> UsableSize g sz = Inr (RoundUp sz (kPageSize g)))
   \<and> (sz \<le> 2048 \<longrightarrow>
        UsableSize g sz = RoundToBracketSize g sz \<and> (\<exists>r. RoundToBracketSize g sz = Inr r))
   \<and> UsableSize g 10000 = Inr (RoundUp 10000 (kPageSize g))
   \<and> (kPageSize g \<noteq> 0 \<and> unat (kPageSize g) + 9999 < 2 ^ 32 \<longrightarrow>
        unat (kPageSize g) dvd unat (RoundUp 10000 (kPageSize g))
        \<and> 10000 \<le> unat (RoundUp 10000 (kPageSize g))
        \<and> unat (RoundUp 10000 (kPageSize g)) < 10000 + unat (kPageSize g))"
proof -
  have small: "UsableSize g sz = RoundToBracketSize g sz \<and> (\<exists>r. RoundToBracketSize g sz = Inr r)"
    if "sz \<le> 2048"
  proof -
    have t: "sz \<le> kLargeSizeThreshold" using that by (simp add: kLargeSizeThreshold_def)
    then show ?thesis
      using RoundToBracketSize_total [OF t, of g] by (simp add: UsableSize_def not_less [symmetric])
  qed
  have big: "UsableSize g 10000 = Inr (RoundUp 10000 (kPageSize g))"
    by (simp add: UsableSize_def kLargeSizeThreshold_def)
  have num: "unat (kPageSize g) dvd unat (RoundUp 10000 (kPageSize g))
        \<and> 10000 \<le> unat (RoundUp 10000 (kPageSize g))
        \<and> unat (RoundUp 10000 (kPageSize g)) < 10000 + unat (kPageSize g)"
    if p: "kPageSize g \<noteq> 0" and f: "unat (kPageSize g) + 9999 < 2 ^ 32"
  proof -
    have p0: "0 < unat (kPageSize g)" using p by (simp add: unat_gt_0)
    have "unat (10000 :: size_t) + unat (kPageSize g) - 1 < 2 ^ 32" using f by simp
    then have u: "unat (RoundUp 10000 (kPageSize g)) =
        ((10000 + unat (kPageSize g) - 1) div unat (kPageSize g)) * unat (kPageSize g)"
      using RoundUp_unat [OF p, of 10000] by simp
    show ?thesis
      using ceil_mult_bounds [OF p0, of 10000] by (simp only: u)
  qed
  show ?thesis
    using small big num by (simp add: UsableSize_def kLargeSizeThreshold_def)
qed

theorem UsableSize_cases_witness:
  "UsableSize \<lparr>kIsDebugBuild = True, kPageSize = 4096\<rparr> 10000 = Inr 12288
   \<and> UsableSize \<lparr>kIsDebugBuild = True, kPageSize = 4096\<rparr> 24
       = RoundToBracketSize \<lparr>kIsDebugBuild = True, kPageSize = 4096\<rparr> 24
   \<and> (4096::nat) dvd 12288 \<and> (10000::nat) \<le> 12288 \<and> (12288::nat) < 10000 + 4096"
proof -
  have r: "RoundUp 10000 4096 = 12288" by (simp add: RoundUp_def)
  show ?thesis
    using UsableSize_cases [of 10000 "\<lparr>kIsDebugBuild = True, kPageSize = 4096\<rparr>"]
      UsableSize_cases [of 24 "\<lparr>kIsDebugBuild = True, kPageSize = 4096\<rparr>"]
    by (simp add: r)
qed

text \<open>
  C4. The usable size of a request is at least the request, when the rounding does not
  overflow. A size up to \<open>kLargeSizeThreshold\<close> is rounded to a bracket size, where
  nothing can overflow; a larger size is rounded up to the page size, and the hypothesis
  is that the page size is not zero and that the size plus the page size minus 1 fits
  \<^verbatim>\<open>size_t\<close>. \<open>UsableSize\<close> then returns a value that is not below the size.
\<close>

theorem UsableSize_ge_request:
  assumes "kLargeSizeThreshold < sz \<Longrightarrow>
             kPageSize g \<noteq> 0 \<and> unat sz + unat (kPageSize g) - 1 < 2 ^ 32"
  shows "\<exists>u. UsableSize g sz = Inr u \<and> sz \<le> u"
proof (cases "kLargeSizeThreshold < sz")
  case True
  then have p: "kPageSize g \<noteq> 0" and f: "unat sz + unat (kPageSize g) - 1 < 2 ^ 32"
    using assms by simp_all
  have p0: "0 < unat (kPageSize g)" using p by (simp add: unat_gt_0)
  have "unat sz \<le> unat (RoundUp sz (kPageSize g))"
    using ceil_mult_bounds(2) [OF p0, of "unat sz"] by (simp only: RoundUp_unat [OF p f])
  then show ?thesis using True by (simp add: UsableSize_def word_le_nat_alt)
next
  case False
  then have t: "sz \<le> kLargeSizeThreshold" by simp
  have "sz \<le> (if sz \<le> 512 then RoundUp sz 16 else if sz \<le> 1024 then 1024 else 2048)"
  proof (cases "sz \<le> 512")
    case True
    have "unat sz \<le> unat (RoundUp sz 16)"
      using ceil_mult_bounds(2) [of 16 "unat sz"] by (simp add: RoundUp_16_unat [OF True])
    then show ?thesis using True by (simp add: word_le_nat_alt)
  next
    case False
    then show ?thesis using t by (simp add: kLargeSizeThreshold_def)
  qed
  then show ?thesis
    using False RoundToBracketSize_total [OF t, of g] by (simp add: UsableSize_def)
qed

theorem UsableSize_ge_request_witness:
  "(\<exists>u. UsableSize \<lparr>kIsDebugBuild = True, kPageSize = 4096\<rparr> 10000 = Inr u \<and> 10000 \<le> u)
   \<and> (\<exists>u. UsableSize \<lparr>kIsDebugBuild = True, kPageSize = 4096\<rparr> 24 = Inr u \<and> 24 \<le> u)"
proof -
  have h: "kPageSize \<lparr>kIsDebugBuild = True, kPageSize = 4096\<rparr> \<noteq> 0
        \<and> unat (10000 :: size_t) + unat (kPageSize \<lparr>kIsDebugBuild = True, kPageSize = 4096\<rparr>) - 1 < 2 ^ 32"
    by simp
  have k: "\<not> kLargeSizeThreshold < (24 :: size_t)" by (simp add: kLargeSizeThreshold_def)
  show ?thesis
    using UsableSize_ge_request [of 10000 "\<lparr>kIsDebugBuild = True, kPageSize = 4096\<rparr>", OF h]
      UsableSize_ge_request [of 24 "\<lparr>kIsDebugBuild = True, kPageSize = 4096\<rparr>"] k
    by simp
qed

section \<open>Free page runs\<close>

lemma ShouldReleasePages_returns:
  assumes "ByteSize g s this = Inr byte_size"
  shows "\<exists>b. ShouldReleasePages g s this = Inr b"
  using assms
  by (cases "page_release_mode (rosalloc s)")
    (auto simp: ShouldReleasePages_def IsAtEndOfSpace_def IsLargerThanPageReleaseThreshold_def)

lemma ByteSize_aligned:
  assumes "kIsDebugBuild g" and "ByteSize g s this = Inr byte_size"
  shows "byte_size mod kPageSize g = 0"
  using assms
  by (auto simp: ByteSize_def DCHECK_def Let_def split: sum.splits if_splits)

text \<open>
  C1. The release policy of a free page run whose size \<open>ByteSize\<close> returns. In mode
  \<open>None\<close> \<open>ShouldReleasePages\<close> returns false and in mode \<open>All\<close> true, whatever the
  run. In mode \<open>End\<close> it returns whether the run's start plus its size is
  \<open>base + footprint\<close>; in mode \<open>Size\<close>, whether the size is at least
  \<open>page_release_size_threshold\<close>; in mode \<open>SizeAndEnd\<close>, whether both hold.
\<close>

theorem ShouldReleasePages_policy:
  "(page_release_mode (rosalloc s) = kPageReleaseModeNone \<longrightarrow>
      ShouldReleasePages g s this = Inr False)
   \<and> (page_release_mode (rosalloc s) = kPageReleaseModeAll \<longrightarrow>
      ShouldReleasePages g s this = Inr True)
   \<and> (kPageSize g \<noteq> 0 \<and> ByteSize g s this = Inr byte_size \<longrightarrow>
      ShouldReleasePages g s this = Inr
        (case page_release_mode (rosalloc s) of
           kPageReleaseModeNone \<Rightarrow> False
         | kPageReleaseModeEnd \<Rightarrow>
             this + byte_size = base (rosalloc s) + footprint (rosalloc s)
         | kPageReleaseModeSize \<Rightarrow>
             byte_size \<ge> page_release_size_threshold (rosalloc s)
         | kPageReleaseModeSizeAndEnd \<Rightarrow>
             byte_size \<ge> page_release_size_threshold (rosalloc s)
             \<and> this + byte_size = base (rosalloc s) + footprint (rosalloc s)
         | kPageReleaseModeAll \<Rightarrow> True))"
  by (cases "page_release_mode (rosalloc s)")
    (simp_all add: ShouldReleasePages_def IsAtEndOfSpace_def IsLargerThanPageReleaseThreshold_def)

theorem ShouldReleasePages_policy_witness:
  "ShouldReleasePages \<lparr>kIsDebugBuild = True, kPageSize = 4096\<rparr>
      \<lparr>rosalloc = \<lparr>base = 65536, footprint = 16384, capacity = 32768,
          page_map = [0, 0, 0, 0, 0, 0, 0, 0],
          free_page_run_size_map = [0, 0, 8192, 0, 0, 0, 0, 0],
          page_release_mode = kPageReleaseModeSizeAndEnd,
          page_release_size_threshold = 8192\<rparr>,
        memory = (\<lambda>a. 0)\<rparr>
      73728 = Inr True"
proof -
  let ?g = "\<lparr>kIsDebugBuild = True, kPageSize = 4096\<rparr>"
  let ?s = "\<lparr>rosalloc = \<lparr>base = 65536, footprint = 16384, capacity = 32768,
          page_map = [0, 0, 0, 0, 0, 0, 0, 0],
          free_page_run_size_map = [0, 0, 8192, 0, 0, 0, 0, 0],
          page_release_mode = kPageReleaseModeSizeAndEnd,
          page_release_size_threshold = 8192\<rparr>,
        memory = (\<lambda>a. 0)\<rparr>"
  have h: "kPageSize ?g \<noteq> 0 \<and> ByteSize ?g ?s 73728 = Inr 8192"
    by (simp add: ByteSize_def ToPageMapIndex_def DCHECK_def)
  show ?thesis
    using ShouldReleasePages_policy [of ?s ?g 73728 8192] h by simp
qed

lemma ToPageMapIndex_size_map:
  "ToPageMapIndex g (s\<lparr>rosalloc := (rosalloc s)\<lparr>free_page_run_size_map := m\<rparr>\<rparr>) a
     = ToPageMapIndex g s a"
  by (simp add: ToPageMapIndex_def)

lemma ToPageMapIndex_memory:
  "ToPageMapIndex g (s\<lparr>memory := m\<rparr>) a = ToPageMapIndex g s a"
  by (simp add: ToPageMapIndex_def)

lemma ByteSize_other_entry:
  assumes "ToPageMapIndex g s this = Inr pm_idx" and "j \<noteq> unat pm_idx"
  shows "ByteSize g (s\<lparr>rosalloc := (rosalloc s)\<lparr>free_page_run_size_map :=
            (free_page_run_size_map (rosalloc s))[j := v]\<rparr>\<rparr>) this = ByteSize g s this"
  using assms by (simp add: ByteSize_def ToPageMapIndex_size_map)

text \<open>
  C6. The size of a free page run lives in the side table only. Let \<open>this\<close> be a run whose
  page-map index \<open>ToPageMapIndex\<close> returns, inside the table, and let \<open>byte_size\<close> be a
  multiple of the page size. Then \<open>SetByteSize\<close> returns a state in which \<open>ByteSize\<close>
  returns \<open>byte_size\<close>. That state is the old one with the entry of the table at the
  run's index replaced, so the memory is as before; neither \<open>ByteSize\<close> nor
  \<open>SetByteSize\<close> depends on the contents of memory, and \<open>ByteSize\<close> does not depend
  on another entry of the table.
\<close>

theorem SetByteSize_ByteSize:
  assumes "kPageSize g \<noteq> 0"
    and "ToPageMapIndex g s this = Inr pm_idx"
    and "unat pm_idx < length (free_page_run_size_map (rosalloc s))"
    and "byte_size mod kPageSize g = 0"
  shows "\<exists>s'. SetByteSize g s this byte_size = Inr s'
           \<and> ByteSize g s' this = Inr byte_size
           \<and> s' = s\<lparr>rosalloc := (rosalloc s)\<lparr>free_page_run_size_map :=
                     (free_page_run_size_map (rosalloc s))[unat pm_idx := byte_size]\<rparr>\<rparr>
           \<and> memory s' = memory s
           \<and> (\<forall>m. ByteSize g (s\<lparr>memory := m\<rparr>) this = ByteSize g s this)
           \<and> (\<forall>m. SetByteSize g (s\<lparr>memory := m\<rparr>) this byte_size = Inr (s'\<lparr>memory := m\<rparr>))
           \<and> (\<forall>j v. j \<noteq> unat pm_idx \<longrightarrow>
                 ByteSize g (s\<lparr>rosalloc := (rosalloc s)\<lparr>free_page_run_size_map :=
                     (free_page_run_size_map (rosalloc s))[j := v]\<rparr>\<rparr>) this = ByteSize g s this)"
proof -
  let ?s' = "s\<lparr>rosalloc := (rosalloc s)\<lparr>free_page_run_size_map :=
                     (free_page_run_size_map (rosalloc s))[unat pm_idx := byte_size]\<rparr>\<rparr>"
  have set: "SetByteSize g s this byte_size = Inr ?s'"
    using assms(2,3,4) by (simp add: SetByteSize_def DCHECK_True)
  have get: "ByteSize g ?s' this = Inr byte_size"
    using assms(2,3,4) by (simp add: ByteSize_def ToPageMapIndex_size_map DCHECK_True)
  have frame_get: "ByteSize g (s\<lparr>memory := m\<rparr>) this = ByteSize g s this" for m
    by (simp add: ByteSize_def ToPageMapIndex_memory Let_def split: sum.splits)
  have frame_set: "SetByteSize g (s\<lparr>memory := m\<rparr>) this byte_size = Inr (?s'\<lparr>memory := m\<rparr>)" for m
    using assms(2,3,4) by (simp add: SetByteSize_def ToPageMapIndex_memory DCHECK_True)
  show ?thesis
    using set get frame_get frame_set ByteSize_other_entry [OF assms(2)] by simp
qed

theorem SetByteSize_ByteSize_witness:
  "SetByteSize \<lparr>kIsDebugBuild = True, kPageSize = 4096\<rparr>
      \<lparr>rosalloc = \<lparr>base = 65536, footprint = 16384, capacity = 32768,
          page_map = [0, 0, 0, 0, 0, 0, 0, 0],
          free_page_run_size_map = [0, 0, 8192, 0, 0, 0, 0, 0],
          page_release_mode = kPageReleaseModeAll,
          page_release_size_threshold = 8192\<rparr>,
        memory = (\<lambda>a. if a = 73728 then 43 else 0)\<rparr>
      73728 12288
     = Inr \<lparr>rosalloc = \<lparr>base = 65536, footprint = 16384, capacity = 32768,
          page_map = [0, 0, 0, 0, 0, 0, 0, 0],
          free_page_run_size_map = [0, 0, 12288, 0, 0, 0, 0, 0],
          page_release_mode = kPageReleaseModeAll,
          page_release_size_threshold = 8192\<rparr>,
        memory = (\<lambda>a. if a = 73728 then 43 else 0)\<rparr>
   \<and> ByteSize \<lparr>kIsDebugBuild = True, kPageSize = 4096\<rparr>
      \<lparr>rosalloc = \<lparr>base = 65536, footprint = 16384, capacity = 32768,
          page_map = [0, 0, 0, 0, 0, 0, 0, 0],
          free_page_run_size_map = [0, 0, 12288, 0, 0, 0, 0, 0],
          page_release_mode = kPageReleaseModeAll,
          page_release_size_threshold = 8192\<rparr>,
        memory = (\<lambda>a. if a = 73728 then 43 else 0)\<rparr>
      73728 = Inr 12288"
proof -
  let ?g = "\<lparr>kIsDebugBuild = True, kPageSize = 4096\<rparr>"
  let ?s = "\<lparr>rosalloc = \<lparr>base = 65536, footprint = 16384, capacity = 32768,
          page_map = [0, 0, 0, 0, 0, 0, 0, 0],
          free_page_run_size_map = [0, 0, 8192, 0, 0, 0, 0, 0],
          page_release_mode = kPageReleaseModeAll,
          page_release_size_threshold = 8192\<rparr>,
        memory = (\<lambda>a. if a = 73728 then 43 else 0)\<rparr>"
  have h0: "kPageSize ?g \<noteq> 0" by simp
  have h1: "ToPageMapIndex ?g ?s 73728 = Inr 2"
    by (simp add: ToPageMapIndex_def DCHECK_def)
  have h2: "unat (2 :: size_t) < length (free_page_run_size_map (rosalloc ?s))" by simp
  have h3: "(12288 :: size_t) mod kPageSize ?g = 0" by simp
  show ?thesis
    using SetByteSize_ByteSize [OF h0 h1 h2 h3] by auto
qed

text \<open>
  C5. In a debug build \<open>ReleasePages\<close> leaves the first page of the run out. For a run of
  at least one page whose size \<open>ByteSize\<close> returns, \<open>ReleasePages\<close> returns, and every
  call of \<^verbatim>\<open>madvise\<close> it makes starts one page after the start of the run, with the
  size of the run minus one page as its length and \<open>MADV_DONTNEED\<close> as its advice. When
  \<open>ShouldReleasePages\<close> says true and the run has more than one page, that call is made,
  once; when it says false or the run has one page, no call is made. When the run does not wrap around the address space, no address of its first
  page is covered by a call.
\<close>

theorem ReleasePages_debug_first_page:
  assumes "kIsDebugBuild g"
    and "kPageSize g \<noteq> 0"
    and "ByteSize g s this = Inr byte_size"
    and "kPageSize g \<le> byte_size"
  shows "\<exists>calls. ReleasePages g s this = Inr calls
           \<and> (\<forall>c \<in> set calls.
                 c = (this + kPageSize g, byte_size - kPageSize g, MADV_DONTNEED))
           \<and> (ShouldReleasePages g s this = Inr True \<and> kPageSize g < byte_size \<longrightarrow>
                 calls = [(this + kPageSize g, byte_size - kPageSize g, MADV_DONTNEED)])
           \<and> (ShouldReleasePages g s this = Inr False \<or> byte_size = kPageSize g \<longrightarrow>
                 calls = [])
           \<and> (unat this + unat byte_size \<le> 2 ^ 32 \<longrightarrow>
                 (\<forall>c \<in> set calls. \<forall>a. in_first_page g this a \<longrightarrow> \<not> advised c a))"
proof -
  obtain b where b: "ShouldReleasePages g s this = Inr b"
    using ShouldReleasePages_returns [OF assms(3)] by blast
  have al: "byte_size mod kPageSize g = 0"
    by (rule ByteSize_aligned [OF assms(1,3)])
  let ?c = "(this + kPageSize g, byte_size - kPageSize g, MADV_DONTNEED)"
  let ?calls = "if kPageSize g < byte_size \<and> b then [?c] else []"
  have pos: "(0 < byte_size - kPageSize g) = (kPageSize g < byte_size)"
    using assms(4) by (simp add: word_less_nat_alt word_le_nat_alt unat_sub)
  have r: "ReleasePages g s this = Inr ?calls"
    using assms(1,3,4) b al pos by (simp add: ReleasePages_def DCHECK_True Let_def)
  have out: "\<not> advised ?c a"
    if fit: "unat this + unat byte_size \<le> 2 ^ 32" and more: "kPageSize g < byte_size"
      and a: "in_first_page g this a" for a
  proof -
    have "unat (kPageSize g) < unat byte_size" using more by (simp add: word_less_nat_alt)
    then have "unat this + unat (kPageSize g) < 2 ^ 32" using fit by simp
    then have "unat (this + kPageSize g) = unat this + unat (kPageSize g)"
      by (simp add: unat_add_lem [THEN iffD1])
    then show ?thesis using a by (simp add: advised_def in_first_page_def)
  qed
  show ?thesis
    using r b out by auto
qed

theorem ReleasePages_debug_first_page_witness:
  "ReleasePages \<lparr>kIsDebugBuild = True, kPageSize = 4096\<rparr>
      \<lparr>rosalloc = \<lparr>base = 65536, footprint = 16384, capacity = 32768,
          page_map = [0, 0, 0, 0, 0, 0, 0, 0],
          free_page_run_size_map = [0, 0, 8192, 0, 0, 0, 0, 0],
          page_release_mode = kPageReleaseModeAll,
          page_release_size_threshold = 8192\<rparr>,
        memory = (\<lambda>a. if a = 73728 then 43 else 0)\<rparr>
      73728 = Inr [(77824, 4096, MADV_DONTNEED)]
   \<and> \<not> advised (77824, 4096, MADV_DONTNEED) 73728"
proof -
  let ?g = "\<lparr>kIsDebugBuild = True, kPageSize = 4096\<rparr>"
  let ?s = "\<lparr>rosalloc = \<lparr>base = 65536, footprint = 16384, capacity = 32768,
          page_map = [0, 0, 0, 0, 0, 0, 0, 0],
          free_page_run_size_map = [0, 0, 8192, 0, 0, 0, 0, 0],
          page_release_mode = kPageReleaseModeAll,
          page_release_size_threshold = 8192\<rparr>,
        memory = (\<lambda>a. if a = 73728 then 43 else 0)\<rparr>"
  have h0: "kIsDebugBuild ?g" and h1: "kPageSize ?g \<noteq> 0" by simp_all
  have h2: "ByteSize ?g ?s 73728 = Inr 8192"
    by (simp add: ByteSize_def ToPageMapIndex_def DCHECK_def)
  have h3: "kPageSize ?g \<le> 8192" by simp
  have h4: "ShouldReleasePages ?g ?s 73728 = Inr True"
    by (simp add: ShouldReleasePages_def)
  have h5: "in_first_page ?g 73728 73728" by (simp add: in_first_page_def)
  have h6: "unat (73728 :: addr) + unat (8192 :: size_t) \<le> 2 ^ 32" by simp
  obtain calls where c: "ReleasePages ?g ?s 73728 = Inr calls"
    and a: "ShouldReleasePages ?g ?s 73728 = Inr True \<and> kPageSize ?g < 8192 \<longrightarrow>
          calls = [(73728 + kPageSize ?g, 8192 - kPageSize ?g, MADV_DONTNEED)]"
    and f: "unat (73728 :: addr) + unat (8192 :: size_t) \<le> 2 ^ 32 \<longrightarrow>
          (\<forall>c \<in> set calls. \<forall>a. in_first_page ?g 73728 a \<longrightarrow> \<not> advised c a)"
    using ReleasePages_debug_first_page [OF h0 h1 h2 h3] by blast
  have l: "calls = [(77824, 4096, MADV_DONTNEED)]" using a h4 by simp
  have "\<not> advised (77824, 4096, MADV_DONTNEED) 73728"
    using f h6 h5 l by simp
  then show ?thesis using c l by simp
qed

text \<open>
  C9. In a debug build a free page run of exactly one page is never released:
  \<open>ReleasePages\<close> returns without a call of \<^verbatim>\<open>madvise\<close>, in every page release mode,
  \<open>kPageReleaseModeAll\<close> among them; the size left after the first page is zero.
\<close>

theorem ReleasePages_debug_single_page:
  assumes "kIsDebugBuild g"
    and "kPageSize g \<noteq> 0"
    and "ByteSize g s this = Inr (kPageSize g)"
  shows "ReleasePages g s this = Inr []"
proof -
  obtain b where b: "ShouldReleasePages g s this = Inr b"
    using ShouldReleasePages_returns [OF assms(3)] by blast
  show ?thesis
    using assms(1,3) b by (simp add: ReleasePages_def DCHECK_True Let_def)
qed

theorem ReleasePages_debug_single_page_witness:
  "ReleasePages \<lparr>kIsDebugBuild = True, kPageSize = 4096\<rparr>
      \<lparr>rosalloc = \<lparr>base = 65536, footprint = 16384, capacity = 32768,
          page_map = [0, 0, 0, 0, 0, 0, 0, 0],
          free_page_run_size_map = [0, 0, 4096, 0, 0, 0, 0, 0],
          page_release_mode = kPageReleaseModeAll,
          page_release_size_threshold = 8192\<rparr>,
        memory = (\<lambda>a. if a = 73728 then 43 else 0)\<rparr>
      73728 = Inr []"
proof -
  let ?g = "\<lparr>kIsDebugBuild = True, kPageSize = 4096\<rparr>"
  let ?s = "\<lparr>rosalloc = \<lparr>base = 65536, footprint = 16384, capacity = 32768,
          page_map = [0, 0, 0, 0, 0, 0, 0, 0],
          free_page_run_size_map = [0, 0, 4096, 0, 0, 0, 0, 0],
          page_release_mode = kPageReleaseModeAll,
          page_release_size_threshold = 8192\<rparr>,
        memory = (\<lambda>a. if a = 73728 then 43 else 0)\<rparr>"
  have h0: "kIsDebugBuild ?g" and h1: "kPageSize ?g \<noteq> 0" by simp_all
  have h2: "ByteSize ?g ?s 73728 = Inr (kPageSize ?g)"
    by (simp add: ByteSize_def ToPageMapIndex_def DCHECK_def)
  show ?thesis
    by (rule ReleasePages_debug_single_page [OF h0 h1 h2])
qed

end
